theory Spec2Isabelle
  imports Main "HOL-Library.Word" "HOL-Library.Sublist"
begin

section \<open>Strings and the JavaScript built-ins the plugin calls\<close>

text \<open>
  JavaScript strings are modelled as \<open>string\<close>, lists of 8-bit characters: the strings
  whose code units are below 256. (Beyond them \<open>JSON.stringify\<close> changes only lone
  surrogates.) Node buffers are lists of bytes. The characters that matter to the generated
  source are named here.
\<close>

type_synonym buffer = "8 word list"

abbreviation (input) dquote :: char where "dquote \<equiv> CHR 0x22"
abbreviation (input) squote :: char where "squote \<equiv> CHR 0x27"
abbreviation (input) backslash :: char where "backslash \<equiv> CHR 0x5C"
abbreviation (input) newline :: char where "newline \<equiv> CHR 0x0A"

definition hex_digit :: "nat \<Rightarrow> char" where
  "hex_digit d = ''0123456789abcdef'' ! (d mod 16)"

definition unicode_escape :: "char \<Rightarrow> string" where
  "unicode_escape c =
     (let n = (of_char c :: nat)
      in [backslash, CHR ''u'', hex_digit (n div 4096), hex_digit (n div 256),
          hex_digit (n div 16), hex_digit n])"

text \<open>
  \<open>JSON.stringify\<close> on a string (ECMAScript QuoteJSONString): the two-character escapes for
  backspace, tab, line feed, form feed, carriage return, the double quote and the backslash;
  \<open>\uXXXX\<close> for every other character below the space; every other character as it is. The
  single quote is not escaped.
\<close>

definition QuoteJSONChar :: "char \<Rightarrow> string" where
  "QuoteJSONChar c =
     (if c = CHR 0x08 then [backslash, CHR ''b'']
      else if c = CHR 0x09 then [backslash, CHR ''t'']
      else if c = CHR 0x0A then [backslash, CHR ''n'']
      else if c = CHR 0x0C then [backslash, CHR ''f'']
      else if c = CHR 0x0D then [backslash, CHR ''r'']
      else if c = dquote then [backslash, dquote]
      else if c = backslash then [backslash, backslash]
      else if (of_char c :: nat) < 32 then unicode_escape c
      else [c])"

definition JSON_stringify :: "string \<Rightarrow> string" where
  "JSON_stringify s = dquote # concat (map QuoteJSONChar s) @ [dquote]"

text \<open>\<open>x.slice(1, -1)\<close>: drop the first and the last character.\<close>

definition slice_1_m1 :: "string \<Rightarrow> string" where
  "slice_1_m1 x = butlast (tl x)"

text \<open>Lines 84 and 86 of \<open>src/index.js\<close>.\<close>

definition quote :: "string \<Rightarrow> string" where
  "quote = JSON_stringify"

definition escape :: "string \<Rightarrow> string" where
  "escape s = slice_1_m1 (JSON_stringify s)"

text \<open>The decimal rendering of a size inside a template literal.\<close>

fun decimal :: "nat \<Rightarrow> string" where
  "decimal n = (if n < 10 then [hex_digit n] else decimal (n div 10) @ [hex_digit (n mod 10)])"

declare decimal.simps [simp del]

section \<open>The export table\<close>

text \<open>
  A composition reference of lightningcss: \<open>{type: 'local', name}\<close>, \<open>{type: 'global', name}\<close>
  or \<open>{type: 'dependency', specifier, name}\<close>. An export has its compiled \<open>name\<close> and its
  \<open>composes\<close> list, which the code tests for presence. The table is the list
  \<open>Object.entries(exports)\<close>, in iteration order.
\<close>

datatype composition =
    Local string
  | Global string
  | Dependency string string

record cssClassExport =
  name :: string
  composes :: "composition list option"

type_synonym css_exports = "(string \<times> cssClassExport) list"

section \<open>Synthesis of the module source (lines 84 to 139)\<close>

text \<open>
  The closure state of the synthesis: the text \<open>contents\<close> and the insertion-ordered
  \<open>Map\<close> \<open>dependencies\<close> from specifier to binding name.
\<close>

record synth_state =
  contents :: string
  dependencies :: "(string \<times> string) list"

definition importDependency :: "string \<Rightarrow> synth_state \<Rightarrow> string \<times> synth_state" where
  "importDependency path st =
     (case map_of (dependencies st) path of
        Some n \<Rightarrow> (n, st)
      | None \<Rightarrow>
          (let dependenciesName = ''dependency_'' @ decimal (length (dependencies st))
           in (dependenciesName,
               st\<lparr>contents := ''import '' @ dependenciesName @ '' from '' @ quote path
                                @ [newline] @ contents st,
                  dependencies := dependencies st @ [(path, dependenciesName)]\<rparr>)))"

text \<open>One turn of the inner loop: the \<open>switch\<close> on the composition type (lines 113 to 125).\<close>

fun compose_step :: "composition \<Rightarrow> string \<times> synth_state \<Rightarrow> string \<times> synth_state" where
  "compose_step (Local n) (compiledCssClasses, st) =
     (compiledCssClasses @ '' '' @ escape n, st)"
| "compose_step (Global n) (compiledCssClasses, st) =
     (compiledCssClasses @ '' '' @ escape n, st)"
| "compose_step (Dependency specifier n) (compiledCssClasses, st) =
     (let (binding, st') = importDependency specifier st
      in (compiledCssClasses @ [CHR '' '', squote] @ '' + '' @ binding @ ''['' @ quote n
            @ ''] + '' @ [squote], st'))"

text \<open>The expression built for one class (lines 109 to 129).\<close>

definition compiledCssClasses :: "cssClassExport \<Rightarrow> synth_state \<Rightarrow> string \<times> synth_state" where
  "compiledCssClasses cssClassExport st =
     (let start = [squote] @ escape (name cssClassExport);
          (acc, st') = (case composes cssClassExport of
                          None \<Rightarrow> (start, st)
                        | Some cs \<Rightarrow> fold compose_step cs (start, st))
      in (acc @ [squote], st'))"

text \<open>
  One turn of the outer loop (lines 108 to 133); \<open>camelCase\<close> is the function of the
  \<open>camelcase\<close> package, a parameter here.
\<close>

definition export_step ::
  "(string \<Rightarrow> string) \<Rightarrow> string \<times> cssClassExport \<Rightarrow> synth_state \<Rightarrow> synth_state" where
  "export_step camelCase entry st =
     (let (cssClassReadableName, cssClassExport) = entry;
          (classes, st') = compiledCssClasses cssClassExport st;
          jsName = camelCase cssClassReadableName
      in st'\<lparr>contents := contents st' @ quote jsName @ '':'' @ classes @ '',''\<rparr>)"

definition emptyishSourceMap :: string where
  "emptyishSourceMap =
     ''data:application/json;base64,eyJ2ZXJzaW9uIjozLCJzb3VyY2VzIjpbIiJdLCJtYXBwaW5ncyI6IkEifQ==''"

definition synthesize :: "(string \<Rightarrow> string) \<Rightarrow> string \<Rightarrow> css_exports \<Rightarrow> string" where
  "synthesize camelCase ident exports =
     (let st0 = \<lparr>contents = [], dependencies = []\<rparr>;
          st1 = st0\<lparr>contents := contents st0 @ ''import '' @ quote ident @ [newline]\<rparr>;
          st2 = st1\<lparr>contents := contents st1 @ ''export default {''\<rparr>;
          st3 = fold (export_step camelCase) exports st2;
          st4 = st3\<lparr>contents := contents st3 @ ''}''\<rparr>;
          st5 = st4\<lparr>contents := contents st4 @ [newline] @ ''//# sourceMappingURL=''
                                    @ emptyishSourceMap\<rparr>
      in contents st5)"

section \<open>The plugin: cache, hooks and the transform (lines 21 to 82 and 141 to 144)\<close>

text \<open>
  The collaborators of the plugin are parameters, gathered in one record: the lightningcss
  call \<open>bundle\<close> (the field \<open>lightningcss_bundle\<close>) as a function of the file name that
  either throws or returns a result, its other arguments being constants of the plugin
  instance; the digest \<open>createHash('sha256').update(path).digest('base64url')\<close>;
  \<open>dirname\<close>; the two \<open>Buffer.toString\<close> encodings; \<open>camelCase\<close>; the optional exclusion
  filter \<open>options.excludeFilter\<close> with its \<open>test\<close>; and the optional entry
  \<open>initialOptions.loader['.css']\<close>.

  The record describes the collaborators at one call of a hook. What \<open>bundle\<close> returns
  depends on the files, and \<open>test\<close> of a regular expression with the flag \<open>g\<close> or \<open>y\<close>
  depends on the \<open>lastIndex\<close> that the call before left behind: two calls, also for one
  path, are two environments, and a statement about two calls takes two of them.

  The result of \<open>bundle\<close> has the compiled code, the source map (the call passes
  \<open>sourceMap: true\<close>, so there is one) and the export table, which may be absent.
\<close>

record bundle_result =
  rslt_code :: buffer
  rslt_map :: buffer
  rslt_exports :: "css_exports option"

record 'e env =
  lightningcss_bundle :: "string \<Rightarrow> 'e + bundle_result"
  sha256_base64url :: "string \<Rightarrow> string"
  dirname :: "string \<Rightarrow> string"
  toString_utf8 :: "buffer \<Rightarrow> string"
  toString_base64 :: "buffer \<Rightarrow> string"
  camelCase :: "string \<Rightarrow> string"
  excludeFilter :: "(string \<Rightarrow> bool) option"
  loader_css :: "string option"

text \<open>The values of \<open>transpiledCssModulesMap\<close> (line 81).\<close>

record asset =
  code :: string
  resolveDir :: string

text \<open>
  The state of a plugin instance: the \<open>Map\<close> of line 25 and what \<open>console.log\<close> has
  printed (the message and the error of line 68).
\<close>

record 'e plugin_state =
  transpiledCssModulesMap :: "string \<rightharpoonup> asset"
  console :: "(string \<times> 'e) list"

text \<open>
  What a hook throws: the error of \<open>bundle\<close>, thrown again, or the \<open>TypeError\<close> of
  destructuring \<open>undefined\<close>.
\<close>

datatype 'e failure = Thrown 'e | TypeError

record resolve_result =
  res_namespace :: string
  res_path :: string

record css_load_result =
  css_contents :: string
  css_loader :: string
  css_resolveDir :: string

record js_load_result =
  js_contents :: string
  js_loader :: string

text \<open>\<open>onResolve\<close> with the filter \<open>/^css-modules:\/\//\<close> (lines 27 to 32).\<close>

definition onResolve :: "string \<Rightarrow> resolve_result option" where
  "onResolve path =
     (if prefix ''css-modules://'' path
      then Some \<lparr>res_namespace = ''css-modules'', res_path = path\<rparr>
      else None)"

text \<open>
  \<open>onLoad\<close> in the namespace \<open>css-modules\<close> (lines 34 to 41). \<open>Map.get\<close> gives
  \<open>undefined\<close> for a key that was never set, and destructuring it throws.
\<close>

definition onLoad_css_modules ::
  "'e env \<Rightarrow> string \<Rightarrow> 'e plugin_state \<Rightarrow> 'e failure + css_load_result" where
  "onLoad_css_modules env path st =
     (case transpiledCssModulesMap st path of
        None \<Rightarrow> Inl TypeError
      | Some entry \<Rightarrow>
          Inr \<lparr>css_contents = code entry,
               css_loader = (case loader_css env of Some l \<Rightarrow> l | None \<Rightarrow> ''css''),
               css_resolveDir = resolveDir entry\<rparr>)"

text \<open>The identity of line 75.\<close>

definition virtual_id :: "'e env \<Rightarrow> string \<Rightarrow> string" where
  "virtual_id env path = ''css-modules://'' @ sha256_base64url env path @ ''.css''"

text \<open>The text of line 77.\<close>

definition finalCode :: "'e env \<Rightarrow> bundle_result \<Rightarrow> string" where
  "finalCode env rslt =
     toString_utf8 env (rslt_code rslt)
       @ ''/*# sourceMappingURL=data:application/json;base64,''
       @ toString_base64 env (rslt_map rslt) @ '' */''"

text \<open>
  \<open>onLoad\<close> for the source files (lines 43 to 145). The result \<open>None\<close> is the
  \<open>return\<close> without a value.
\<close>

definition onLoad_module ::
  "'e env \<Rightarrow> string \<Rightarrow> 'e plugin_state
     \<Rightarrow> ('e failure + js_load_result option) \<times> 'e plugin_state" where
  "onLoad_module env path st =
     (if (case excludeFilter env of Some test \<Rightarrow> test path | None \<Rightarrow> False)
      then (Inr None, st)
      else
        (case lightningcss_bundle env path of
           Inl err \<Rightarrow>
             (Inl (Thrown err),
              st\<lparr>console := console st @ [(''lightning css bundling failed:'', err)]\<rparr>)
         | Inr rslt \<Rightarrow>
             (case rslt_exports rslt of
                None \<Rightarrow> (Inr None, st)
              | Some exports \<Rightarrow>
                  (let ident = virtual_id env path;
                       st' = st\<lparr>transpiledCssModulesMap :=
                                  (transpiledCssModulesMap st)
                                    (ident \<mapsto> \<lparr>code = finalCode env rslt,
                                                resolveDir = dirname env path\<rparr>)\<rparr>
                   in (Inr (Some \<lparr>js_contents = synthesize (camelCase env) ident exports,
                                   js_loader = ''js''\<rparr>),
                       st')))))"

section \<open>The parts of the synthesized module\<close>

text \<open>
  The statements the synthesis emits, and the data they are emitted from, named so that the
  theorems can speak of them.
\<close>

definition import_statement :: "string \<times> string \<Rightarrow> string" where
  "import_statement d = ''import '' @ snd d @ '' from '' @ quote (fst d) @ [newline]"

definition primary_import :: "string \<Rightarrow> string" where
  "primary_import ident = ''import '' @ quote ident @ [newline]"

definition property_definition :: "string \<times> string \<Rightarrow> string" where
  "property_definition p = quote (fst p) @ '':'' @ snd p @ '',''"

definition export_statement :: "(string \<times> string) list \<Rightarrow> string" where
  "export_statement props = ''export default {'' @ concat (map property_definition props) @ ''}''"

definition source_map_marker :: string where
  "source_map_marker = [newline] @ ''//# sourceMappingURL='' @ emptyishSourceMap"

text \<open>The specifiers of the Dependency compositions, in the order the loops meet them.\<close>

fun specifiers_of :: "composition list \<Rightarrow> string list" where
  "specifiers_of [] = []"
| "specifiers_of (Dependency s n # cs) = s # specifiers_of cs"
| "specifiers_of (c # cs) = specifiers_of cs"

definition compositions_of :: "cssClassExport \<Rightarrow> composition list" where
  "compositions_of e = (case composes e of None \<Rightarrow> [] | Some cs \<Rightarrow> cs)"

definition dependency_specifiers :: "css_exports \<Rightarrow> string list" where
  "dependency_specifiers exports =
     concat (map (\<lambda>entry. specifiers_of (compositions_of (snd entry))) exports)"

text \<open>Each element once, at the place of its first occurrence.\<close>

primrec first_references :: "string list \<Rightarrow> string list" where
  "first_references [] = []"
| "first_references (s # ss) = s # filter (\<lambda>x. x \<noteq> s) (first_references ss)"

definition binding_name :: "nat \<Rightarrow> string" where
  "binding_name i = ''dependency_'' @ decimal i"

text \<open>
  The import table: the specifiers in first-reference order, the \<open>i\<close>-th bound to
  \<open>dependency_i\<close>.
\<close>

definition dependency_table :: "string list \<Rightarrow> (string \<times> string) list" where
  "dependency_table ss =
     zip (first_references ss) (map binding_name [0..<length (first_references ss)])"

text \<open>What \<open>importDependency\<close> does to the table.\<close>

definition register :: "string \<Rightarrow> (string \<times> string) list \<Rightarrow> (string \<times> string) list" where
  "register s D = (if s \<in> fst ` set D then D else D @ [(s, binding_name (length D))])"

text \<open>
  The piece of a class expression that one composition contributes, given the bindings
  \<open>B\<close>: a literal fragment for Local and Global, a lookup \<open>binding["name"]\<close> spliced between
  two string literals for Dependency.
\<close>

fun fragment :: "(string \<rightharpoonup> string) \<Rightarrow> composition \<Rightarrow> string" where
  "fragment B (Local n) = '' '' @ escape n"
| "fragment B (Global n) = '' '' @ escape n"
| "fragment B (Dependency s n) =
     [CHR '' '', squote] @ '' + '' @ (case B s of Some b \<Rightarrow> b | None \<Rightarrow> []) @ ''['' @ quote n
       @ ''] + '' @ [squote]"

definition class_expression :: "(string \<rightharpoonup> string) \<Rightarrow> cssClassExport \<Rightarrow> string" where
  "class_expression B e =
     [squote] @ escape (name e) @ concat (map (fragment B) (compositions_of e)) @ [squote]"

text \<open>The properties of the exported object literal: accessor key and value expression.\<close>

definition export_properties ::
  "(string \<Rightarrow> string) \<Rightarrow> (string \<rightharpoonup> string) \<Rightarrow> css_exports \<Rightarrow> (string \<times> string) list" where
  "export_properties cc B exports =
     map (\<lambda>entry. (cc (fst entry), class_expression B (snd entry))) exports"

definition synthesized_properties ::
  "(string \<Rightarrow> string) \<Rightarrow> css_exports \<Rightarrow> (string \<times> string) list" where
  "synthesized_properties cc exports =
     export_properties cc (map_of (dependency_table (dependency_specifiers exports))) exports"

section \<open>JavaScript's reading of the generated text\<close>

text \<open>
  Where a single-quoted string literal ends: given the text after the opening quote, the
  offset of the first single quote that is not part of an escape sequence. A backslash takes
  the next character with it; a line terminator before the closing quote leaves the literal
  unterminated.
\<close>

fun literal_end :: "string \<Rightarrow> nat option" where
  "literal_end [] = None"
| "literal_end [c] = (if c = squote then Some 0 else None)"
| "literal_end (c # d # cs) =
     (if c = squote then Some 0
      else if c = backslash then map_option (\<lambda>i. i + 2) (literal_end cs)
      else if c = newline \<or> c = CHR 0x0D then None
      else map_option Suc (literal_end (d # cs)))"

text \<open>
  The object an object literal evaluates to when its values are strings: the properties are
  defined from left to right, a later definition of a key replacing the earlier one. The key
  \<open>__proto__\<close> defines no property (a string is no prototype), and two of them are an early
  syntax error.
\<close>

datatype js_error = SyntaxError

definition eval_object_literal :: "(string \<times> 'v) list \<Rightarrow> js_error + (string \<rightharpoonup> 'v)" where
  "eval_object_literal props =
     (if 1 < length (filter (\<lambda>p. fst p = ''__proto__'') props) then Inl SyntaxError
      else Inr (fold (\<lambda>p obj. if fst p = ''__proto__'' then obj else obj(fst p \<mapsto> snd p))
                  props Map.empty))"

text \<open>The value an object literal gives to one key.\<close>

definition property_value :: "string \<Rightarrow> (string \<times> 'v) list \<Rightarrow> js_error + 'v option" where
  "property_value k props =
     (case eval_object_literal props of Inl e \<Rightarrow> Inl e | Inr obj \<Rightarrow> Inr (obj k))"

text \<open>
  A reader for the part of JavaScript the synthesis writes: string literals in single or
  double quotes with their escape sequences, identifiers, the punctuation
  \<open>+ : , [ ] { }\<close>, white space and line comments. A line terminator or the end of the
  text inside a string literal is the syntax error of an unterminated literal; text outside
  this part of the language is reported as unsupported, which says nothing about it.
\<close>

datatype token = TString string | TIdent string | TPunct char

datatype read_error = UnterminatedStringLiteral | Unsupported

datatype lex_mode =
    Code
  | InIdent string
  | InString char string
  | Escape char string
  | HexEscape char string nat nat
  | AfterSlash
  | LineComment

definition is_ident_start :: "char \<Rightarrow> bool" where
  "is_ident_start c =
     (c \<in> set ''abcdefghijklmnopqrstuvwxyzABCDEFGHIJKLMNOPQRSTUVWXYZ_$'')"

definition is_ident_part :: "char \<Rightarrow> bool" where
  "is_ident_part c = (is_ident_start c \<or> c \<in> set ''0123456789'')"

definition hex_value :: "char \<Rightarrow> nat option" where
  "hex_value c =
     (if c \<in> set ''0123456789'' then Some (of_char c - 48)
      else if c \<in> set ''abcdef'' then Some (of_char c - 87)
      else if c \<in> set ''ABCDEF'' then Some (of_char c - 55)
      else None)"

text \<open>A character met between two tokens.\<close>

definition lex_code :: "char \<Rightarrow> token list \<Rightarrow> read_error + lex_mode \<times> token list" where
  "lex_code c toks =
     (if c \<in> set [CHR '' '', newline, CHR 0x0D, CHR 0x09] then Inr (Code, toks)
      else if c = squote \<or> c = dquote then Inr (InString c [], toks)
      else if c \<in> set ''+:,[]{}'' then Inr (Code, toks @ [TPunct c])
      else if c = CHR ''/'' then Inr (AfterSlash, toks)
      else if is_ident_start c then Inr (InIdent [c], toks)
      else Inl Unsupported)"

text \<open>The character after a backslash inside a string literal.\<close>

definition lex_escape :: "char \<Rightarrow> string \<Rightarrow> char \<Rightarrow> read_error + lex_mode" where
  "lex_escape q acc c =
     (if c = CHR ''n'' then Inr (InString q (acc @ [CHR 0x0A]))
      else if c = CHR ''t'' then Inr (InString q (acc @ [CHR 0x09]))
      else if c = CHR ''b'' then Inr (InString q (acc @ [CHR 0x08]))
      else if c = CHR ''f'' then Inr (InString q (acc @ [CHR 0x0C]))
      else if c = CHR ''r'' then Inr (InString q (acc @ [CHR 0x0D]))
      else if c = CHR ''v'' then Inr (InString q (acc @ [CHR 0x0B]))
      else if c = CHR ''u'' then Inr (HexEscape q acc 4 0)
      else if c = CHR ''x'' then Inr (HexEscape q acc 2 0)
      else if c = newline then Inr (InString q acc)
      else if c = CHR 0x0D \<or> c \<in> set ''0123456789'' then Inl Unsupported
      else Inr (InString q (acc @ [c])))"

fun lex_step :: "lex_mode \<Rightarrow> char \<Rightarrow> token list \<Rightarrow> read_error + lex_mode \<times> token list" where
  "lex_step Code c toks = lex_code c toks"
| "lex_step (InIdent w) c toks =
     (if is_ident_part c then Inr (InIdent (w @ [c]), toks) else lex_code c (toks @ [TIdent w]))"
| "lex_step (InString q acc) c toks =
     (if c = q then Inr (Code, toks @ [TString acc])
      else if c = backslash then Inr (Escape q acc, toks)
      else if c = newline \<or> c = CHR 0x0D then Inl UnterminatedStringLiteral
      else Inr (InString q (acc @ [c]), toks))"
| "lex_step (Escape q acc) c toks =
     (case lex_escape q acc c of Inl e \<Rightarrow> Inl e | Inr m \<Rightarrow> Inr (m, toks))"
| "lex_step (HexEscape q acc k v) c toks =
     (case hex_value c of
        None \<Rightarrow> Inl Unsupported
      | Some h \<Rightarrow>
          (if 1 < k then Inr (HexEscape q acc (k - 1) (16 * v + h), toks)
           else if 16 * v + h < 256 then Inr (InString q (acc @ [char_of (16 * v + h)]), toks)
           else Inl Unsupported))"
| "lex_step AfterSlash c toks = (if c = CHR ''/'' then Inr (LineComment, toks) else Inl Unsupported)"
| "lex_step LineComment c toks =
     (if c = newline \<or> c = CHR 0x0D then Inr (Code, toks) else Inr (LineComment, toks))"

fun lex_end :: "lex_mode \<Rightarrow> token list \<Rightarrow> read_error + token list" where
  "lex_end Code toks = Inr toks"
| "lex_end (InIdent w) toks = Inr (toks @ [TIdent w])"
| "lex_end LineComment toks = Inr toks"
| "lex_end (InString q acc) toks = Inl UnterminatedStringLiteral"
| "lex_end (Escape q acc) toks = Inl UnterminatedStringLiteral"
| "lex_end (HexEscape q acc k v) toks = Inl UnterminatedStringLiteral"
| "lex_end AfterSlash toks = Inl Unsupported"

fun lex_from :: "lex_mode \<Rightarrow> token list \<Rightarrow> string \<Rightarrow> read_error + token list" where
  "lex_from m toks [] = lex_end m toks"
| "lex_from m toks (c # cs) =
     (case lex_step m c toks of Inl e \<Rightarrow> Inl e | Inr (m', toks') \<Rightarrow> lex_from m' toks' cs)"

definition lex :: "string \<Rightarrow> read_error + token list" where
  "lex text = lex_from Code [] text"

text \<open>
  The operands of a sum of strings: a string literal, or the property \<open>binding["key"]\<close> of
  an imported object, which has its value when the module runs.
\<close>

datatype operand = Str string | Index string string

fun split_on :: "'a \<Rightarrow> 'a list \<Rightarrow> 'a list list" where
  "split_on x [] = [[]]"
| "split_on x (y # ys) =
     (if y = x then [] # split_on x ys
      else (case split_on x ys of [] \<Rightarrow> [[y]] | s # ss \<Rightarrow> (y # s) # ss))"

fun read_operand :: "token list \<Rightarrow> operand option" where
  "read_operand [TString s] = Some (Str s)"
| "read_operand [TIdent b, TPunct l, TString k, TPunct r] =
     (if l = CHR ''['' \<and> r = CHR '']'' then Some (Index b k) else None)"
| "read_operand toks = None"

definition read_expression :: "token list \<Rightarrow> operand list option" where
  "read_expression toks = those (map read_operand (split_on (TPunct (CHR ''+'')) toks))"

fun read_property :: "token list \<Rightarrow> (string \<times> operand list) option" where
  "read_property (TString k # TPunct c # toks) =
     (if c = CHR '':'' then map_option (Pair k) (read_expression toks) else None)"
| "read_property (TIdent k # TPunct c # toks) =
     (if c = CHR '':'' then map_option (Pair k) (read_expression toks) else None)"
| "read_property toks = None"

text \<open>The properties between the braces; one comma may follow the last of them.\<close>

definition read_object_body :: "token list \<Rightarrow> (string \<times> operand list) list option" where
  "read_object_body toks =
     (let segments = split_on (TPunct (CHR '','')) toks
      in those (map read_property
                  (if last segments = [] then butlast segments else segments)))"

text \<open>
  A module as the synthesis writes it: import declarations (with a binding for the default
  export, or for the side effect alone), then the default export of an object literal.
\<close>

datatype js_module =
  Module (module_imports: "(string option \<times> string) list")
         (module_properties: "(string \<times> operand list) list")

fun read_statements :: "token list \<Rightarrow> js_module option" where
  "read_statements (TIdent w # TString spec # toks) =
     (if w = ''import''
      then (case read_statements toks of
              None \<Rightarrow> None
            | Some m \<Rightarrow> Some (Module ((None, spec) # module_imports m) (module_properties m)))
      else None)"
| "read_statements (TIdent w # TIdent b # TIdent f # TString spec # toks) =
     (if w = ''import'' \<and> f = ''from''
      then (case read_statements toks of
              None \<Rightarrow> None
            | Some m \<Rightarrow> Some (Module ((Some b, spec) # module_imports m) (module_properties m)))
      else None)"
| "read_statements (TIdent w # TIdent d # TPunct l # toks) =
     (if w = ''export'' \<and> d = ''default'' \<and> l = CHR ''{'' \<and> toks \<noteq> []
         \<and> last toks = TPunct (CHR ''}'')
      then map_option (Module []) (read_object_body (butlast toks))
      else None)"
| "read_statements toks = None"

definition read_module :: "string \<Rightarrow> read_error + js_module" where
  "read_module text =
     (case lex text of
        Inl e \<Rightarrow> Inl e
      | Inr toks \<Rightarrow> (case read_statements toks of None \<Rightarrow> Inl Unsupported | Some m \<Rightarrow> Inr m))"

text \<open>The value of a sum whose operands are all string literals.\<close>

definition constant_value :: "operand list \<Rightarrow> string option" where
  "constant_value ops =
     map_option concat (those (map (\<lambda>x. case x of Str s \<Rightarrow> Some s | Index b k \<Rightarrow> None) ops))"

section \<open>Example inputs\<close>

text \<open>
  A small environment for concrete runs: three source files that transform (one with a class,
  one with an empty export table, one without an export table) and failure for every other
  path; the digest is replaced by a tag in front of the path.
\<close>

definition example_env :: "string env" where
  "example_env =
     \<lparr>lightningcss_bundle = (\<lambda>p.
          if p = ''/src/a.module.css''
          then Inr \<lparr>rslt_code = [0x61], rslt_map = [0x7B, 0x7D],
                    rslt_exports = Some [(''a'', \<lparr>name = ''h_a'', composes = Some []\<rparr>)]\<rparr>
          else if p = ''/src/empty.module.css''
          then Inr \<lparr>rslt_code = [], rslt_map = [0x7B, 0x7D], rslt_exports = Some []\<rparr>
          else if p = ''/src/plain.module.css''
          then Inr \<lparr>rslt_code = [], rslt_map = [0x7B, 0x7D], rslt_exports = None\<rparr>
          else Inl ''SyntaxError''),
      sha256_base64url = (\<lambda>p. ''H'' @ p),
      dirname = (\<lambda>p. ''/src''),
      toString_utf8 = (\<lambda>b. replicate (length b) (CHR ''a'')),
      toString_base64 = (\<lambda>b. ''e30=''),
      camelCase = (\<lambda>s. s),
      excludeFilter = None,
      loader_css = None\<rparr>"

definition example_state :: "string plugin_state" where
  "example_state = \<lparr>transpiledCssModulesMap = Map.empty, console = []\<rparr>"

text \<open>
  A table with two classes and two dependency specifiers, the first of them referenced by
  both classes.
\<close>

definition example_exports :: css_exports where
  "example_exports =
     [(''a'', \<lparr>name = ''h_a'',
               composes = Some [Dependency ''./b.css'' ''x'', Local ''h_l'']\<rparr>),
      (''b'', \<lparr>name = ''h_b'',
               composes = Some [Dependency ''./c.css'' ''y'', Dependency ''./b.css'' ''z'']\<rparr>)]"

text \<open>
  A casing function that sends \<open>my-button\<close> and \<open>myButton\<close> to one key, and \<open>x-y'z\<close> and
  \<open>xY'z\<close> to another.
\<close>

definition example_camelCase :: "string \<Rightarrow> string" where
  "example_camelCase s =
     (if s = ''my-button'' then ''myButton''
      else if s = ''x-y'' @ [squote] @ ''z'' then ''xY'' @ [squote] @ ''z''
      else s)"

text \<open>
  Tables with a single quote in a name. In the first, the class \<open>a' +\<close> with the compiled
  name \<open>h_a' +\<close> composes \<open>n\<close> from \<open>./b.css\<close> and the global name \<open>+'\<close>. In the second, the
  class \<open>a\<close> composes the local class \<open>'+'\<close>, whose compiled name is \<open>h_'+'\<close>, and the global
  name \<open>glb\<close>. In the third, two classes with the same key have the compiled names
  \<open>h_x-y'z\<close> and \<open>h_xY'z\<close>. In the fourth, the second of two classes with the same key has
  the compiled name \<open>h_2',myButton:'h_1\<close>.
\<close>

definition lookup_exports :: css_exports where
  "lookup_exports =
     [(''a'' @ [squote] @ '' +'',
       \<lparr>name = ''h_a'' @ [squote] @ '' +'',
        composes = Some [Dependency ''./b.css'' ''n'', Global (''+'' @ [squote])]\<rparr>)]"

definition local_global_exports :: css_exports where
  "local_global_exports =
     [(''a'', \<lparr>name = ''h_a'',
               composes = Some [Local (''h_'' @ [squote] @ ''+'' @ [squote]), Global ''glb'']\<rparr>)]"

definition colliding_exports :: css_exports where
  "colliding_exports =
     [(''x-y'' @ [squote] @ ''z'', \<lparr>name = ''h_x-y'' @ [squote] @ ''z'', composes = None\<rparr>),
      (''xY'' @ [squote] @ ''z'', \<lparr>name = ''h_xY'' @ [squote] @ ''z'', composes = None\<rparr>)]"

definition overtaking_exports :: css_exports where
  "overtaking_exports =
     [(''my-button'', \<lparr>name = ''h_1'', composes = None\<rparr>),
      (''myButton'',
       \<lparr>name = ''h_2'' @ [squote] @ '',myButton:'' @ [squote] @ ''h_1'', composes = None\<rparr>)]"

text \<open>
  A second environment with the digest of the first and everything else different: another
  result of the transform, a filter, another casing function, a loader.
\<close>

definition other_env :: "string env" where
  "other_env =
     \<lparr>lightningcss_bundle = (\<lambda>p.
          Inr \<lparr>rslt_code = [0x62, 0x62], rslt_map = [],
                rslt_exports = Some example_exports\<rparr>),
      sha256_base64url = (\<lambda>p. ''H'' @ p),
      dirname = (\<lambda>p. ''/other''),
      toString_utf8 = (\<lambda>b. replicate (length b) (CHR ''b'')),
      toString_base64 = (\<lambda>b. []),
      camelCase = example_camelCase,
      excludeFilter = Some (\<lambda>p. p = ''/src/skipped.module.css''),
      loader_css = Some ''text''\<rparr>"

section \<open>How the loops build the text\<close>

subsection \<open>The import table only grows\<close>

lemma register_prefix: "\<exists>X. register s D = D @ X"
  by (simp add: register_def)

lemma fold_register_prefix: "\<exists>X. fold register ss D = D @ X"
proof (induction ss arbitrary: D)
  case Nil
  then show ?case by simp
next
  case (Cons s ss)
  obtain X where X: "register s D = D @ X" using register_prefix by blast
  obtain Y where Y: "fold register ss (register s D) = register s D @ Y" using Cons by blast
  show ?case using X Y by simp
qed

lemma map_of_prefix_mono: "map_of D s = Some b \<Longrightarrow> map_of (D @ X) s = Some b"
  by (simp add: map_add_Some_iff)

lemma fold_register_mono:
  "map_of D s = Some b \<Longrightarrow> map_of (fold register ss D) s = Some b"
  using fold_register_prefix [of ss D] map_of_prefix_mono by fastforce

lemma map_of_register: "map_of (register s D) s = Some (case map_of D s of Some b \<Rightarrow> b | None \<Rightarrow> binding_name (length D))"
  by (auto simp: register_def map_add_Some_iff map_of_eq_None_iff split: option.splits dest: weak_map_of_SomeI) 

lemma importDependency_eq:
  "importDependency s st =
     (case map_of (register s (dependencies st)) s of Some b \<Rightarrow> b | None \<Rightarrow> [],
      \<lparr>contents = concat (map import_statement (rev (drop (length (dependencies st)) (register s (dependencies st))))) @ contents st,
       dependencies = register s (dependencies st)\<rparr>)"
proof (cases "map_of (dependencies st) s")
  case None
  then have "s \<notin> fst ` set (dependencies st)" by (simp add: map_of_eq_None_iff)
  then show ?thesis using None
    by (simp add: importDependency_def register_def import_statement_def binding_name_def map_add_def Let_def)
next
  case (Some b)
  then have "s \<in> fst ` set (dependencies st)" by (metis map_of_eq_None_iff option.distinct(1))
  then show ?thesis using Some
    by (simp add: importDependency_def register_def)
qed

lemma fragment_cong:
  "(\<And>s. s \<in> set (specifiers_of [c]) \<Longrightarrow> B s = B' s) \<Longrightarrow> fragment B c = fragment B' c"
  by (cases c) simp_all

lemma compose_step_eq:
  "compose_step c (acc, st) =
     (acc @ fragment (map_of (fold register (specifiers_of [c]) (dependencies st))) c,
      \<lparr>contents = concat (map import_statement
                  (rev (drop (length (dependencies st))
                     (fold register (specifiers_of [c]) (dependencies st))))) @ contents st,
       dependencies = fold register (specifiers_of [c]) (dependencies st)\<rparr>)"
  by (cases c) (simp_all add: importDependency_eq map_of_register split: option.splits)

lemma specifiers_of_Cons: "specifiers_of (c # cs) = specifiers_of [c] @ specifiers_of cs"
  by (cases c) simp_all

lemma compose_loop_eq:
  "fold compose_step cs (acc, st) =
     (acc @ concat (map (fragment (map_of (fold register (specifiers_of cs) (dependencies st)))) cs),
      \<lparr>contents = concat (map import_statement
                  (rev (drop (length (dependencies st))
                     (fold register (specifiers_of cs) (dependencies st))))) @ contents st,
       dependencies = fold register (specifiers_of cs) (dependencies st)\<rparr>)"
proof (induction cs arbitrary: acc st)
  case Nil
  then show ?case by simp
next
  case (Cons c cs)
  let ?D = "dependencies st"
  let ?D1 = "fold register (specifiers_of [c]) ?D"
  let ?D2 = "fold register (specifiers_of cs) ?D1"
  obtain X where X: "?D1 = ?D @ X" using fold_register_prefix by blast
  obtain Y where Y: "?D2 = ?D1 @ Y" using fold_register_prefix by blast
  have D2: "fold register (specifiers_of (c # cs)) ?D = ?D2"
    by (subst specifiers_of_Cons) simp
  have frag: "fragment (map_of ?D1) c = fragment (map_of ?D2) c"
  proof (cases c)
    case (Dependency s n)
    have "map_of ?D1 s = Some (case map_of ?D s of Some b \<Rightarrow> b | None \<Rightarrow> binding_name (length ?D))"
      using Dependency by (simp add: map_of_register)
    then have "map_of ?D2 s = map_of ?D1 s" using fold_register_mono by simp
    then show ?thesis using Dependency by simp
  qed simp_all
  have len: "length ?D1 = length ?D + length X" using X by simp
  have "?D2 = ?D @ X @ Y" using X Y by simp
  then have imps:
    "concat (map import_statement (rev (drop (length ?D1) ?D2)))
       @ concat (map import_statement (rev (drop (length ?D) ?D1)))
     = concat (map import_statement (rev (drop (length ?D) ?D2)))"
    by (simp add: len X)
  show ?case
    unfolding D2
    apply (simp only: fold_simps compose_step_eq Cons.IH)
    apply (simp add: frag)
    apply (rule imps)
    done
qed

lemma compiledCssClasses_eq:
  "compiledCssClasses e st =
     (class_expression (map_of (fold register (specifiers_of (compositions_of e)) (dependencies st))) e,
      \<lparr>contents = concat (map import_statement
                  (rev (drop (length (dependencies st))
                     (fold register (specifiers_of (compositions_of e)) (dependencies st))))) @ contents st,
       dependencies = fold register (specifiers_of (compositions_of e)) (dependencies st)\<rparr>)"
  by (cases "composes e")
     (simp_all add: compiledCssClasses_def class_expression_def compositions_of_def compose_loop_eq)

lemma map_fragment_cong:
  "(\<And>s. s \<in> set (specifiers_of cs) \<Longrightarrow> B s = B' s) \<Longrightarrow>
     map (fragment B) cs = map (fragment B') cs"
proof (induction cs)
  case Nil
  then show ?case by simp
next
  case (Cons c cs)
  have "fragment B c = fragment B' c"
    by (rule fragment_cong) (use Cons.prems specifiers_of_Cons [of c cs] in auto)
  moreover have "map (fragment B) cs = map (fragment B') cs"
    by (rule Cons.IH) (use Cons.prems specifiers_of_Cons [of c cs] in auto)
  ultimately show ?case by simp
qed

lemma class_expression_cong:
  "(\<And>s. s \<in> set (specifiers_of (compositions_of e)) \<Longrightarrow> B s = B' s) \<Longrightarrow>
     class_expression B e = class_expression B' e"
proof -
  assume h: "\<And>s. s \<in> set (specifiers_of (compositions_of e)) \<Longrightarrow> B s = B' s"
  have "map (fragment B) (compositions_of e) = map (fragment B') (compositions_of e)"
    by (rule map_fragment_cong) (rule h)
  then show ?thesis by (simp only: class_expression_def)
qed

lemma map_of_fold_register_dom:
  "s \<in> set ss \<Longrightarrow> map_of (fold register ss D) s \<noteq> None"
proof (induction ss arbitrary: D)
  case Nil then show ?case by simp
next
  case (Cons a ss)
  show ?case
  proof (cases "s = a")
    case True
    have "map_of (register a D) a \<noteq> None" by (simp add: map_of_register)
    then obtain b where "map_of (register a D) a = Some b" by blast
    then have "map_of (fold register ss (register a D)) a = Some b" by (rule fold_register_mono)
    then show ?thesis using True by simp
  next
    case False
    then show ?thesis using Cons by simp
  qed
qed

lemma export_loop_eq:
  "fold (export_step cc) exports st =
     \<lparr>contents = concat (map import_statement
                 (rev (drop (length (dependencies st))
                    (fold register (dependency_specifiers exports) (dependencies st)))))
               @ contents st
               @ concat (map property_definition
                   (export_properties cc
                      (map_of (fold register (dependency_specifiers exports) (dependencies st)))
                      exports)),
      dependencies = fold register (dependency_specifiers exports) (dependencies st)\<rparr>"
proof (induction exports arbitrary: st)
  case Nil
  then show ?case by (simp add: dependency_specifiers_def export_properties_def)
next
  case (Cons entry exports)
  obtain r e where entry: "entry = (r, e)" by (cases entry)
  let ?D = "dependencies st"
  let ?D1 = "fold register (specifiers_of (compositions_of e)) ?D"
  let ?D2 = "fold register (dependency_specifiers exports) ?D1"
  obtain X where X: "?D1 = ?D @ X" using fold_register_prefix by blast
  obtain Y where Y: "?D2 = ?D1 @ Y" using fold_register_prefix by blast
  have D2: "fold register (dependency_specifiers (entry # exports)) ?D = ?D2"
    by (simp add: dependency_specifiers_def entry)
  have len: "length ?D1 = length ?D + length X" using X by simp
  have "?D2 = ?D @ X @ Y" using X Y by simp
  then have imps:
    "concat (map import_statement (rev (drop (length ?D1) ?D2)))
       @ concat (map import_statement (rev (drop (length ?D) ?D1)))
     = concat (map import_statement (rev (drop (length ?D) ?D2)))"
    by (simp add: len X)
  have expr: "class_expression (map_of ?D1) e = class_expression (map_of ?D2) e"
  proof (rule class_expression_cong)
    fix s assume "s \<in> set (specifiers_of (compositions_of e))"
    then have "map_of ?D1 s \<noteq> None" by (rule map_of_fold_register_dom)
    then obtain b where b: "map_of ?D1 s = Some b" by blast
    then have "map_of ?D2 s = Some b" by (rule fold_register_mono)
    then show "map_of ?D1 s = map_of ?D2 s" using b by simp
  qed
  have step: "export_step cc entry st =
      \<lparr>contents = concat (map import_statement (rev (drop (length ?D) ?D1))) @ contents st
                  @ property_definition (cc r, class_expression (map_of ?D2) e),
       dependencies = ?D1\<rparr>"
    by (simp add: export_step_def entry compiledCssClasses_eq property_definition_def expr)
  show ?case
    unfolding D2
    apply (simp only: fold_simps step Cons.IH)
    apply (simp add: export_properties_def entry)
    using imps apply (simp add: append_assoc [symmetric] del: append_assoc)
    done
qed

lemma first_references_set: "set (first_references ss) = set ss"
  by (induction ss) auto

lemma first_references_distinct: "distinct (first_references ss)"
  by (induction ss) (auto simp: first_references_set)

lemma fold_register_keys:
  "map fst (fold register ss D)
     = map fst D @ filter (\<lambda>x. x \<notin> set (map fst D)) (first_references ss)"
proof (induction ss arbitrary: D)
  case Nil
  then show ?case by simp
next
  case (Cons s ss)
  show ?case
  proof (cases "s \<in> fst ` set D")
    case True
    then have r: "register s D = D" by (simp add: register_def)
    have "filter (\<lambda>x. x \<noteq> s \<and> x \<notin> fst ` set D) (first_references ss)
            = filter (\<lambda>x. x \<notin> fst ` set D) (first_references ss)"
      by (rule filter_cong) (use True in auto)
    then show ?thesis using True Cons [of D] r by simp
  next
    case False
    then have r: "register s D = D @ [(s, binding_name (length D))]" by (simp add: register_def)
    have "filter (\<lambda>x. x \<noteq> s \<and> x \<notin> fst ` set D) (first_references ss)
            = filter (\<lambda>x. x \<notin> fst ` set D \<and> x \<noteq> s) (first_references ss)"
      by (rule filter_cong) auto
    then show ?thesis using False Cons [of "D @ [(s, binding_name (length D))]"] r
      by simp
  qed
qed

lemma fold_register_names:
  "map snd D = map binding_name [0..<length D] \<Longrightarrow>
     map snd (fold register ss D) = map binding_name [0..<length (fold register ss D)]"
proof (induction ss arbitrary: D)
  case Nil
  then show ?case by simp
next
  case (Cons s ss)
  have "map snd (register s D) = map binding_name [0..<length (register s D)]"
    using Cons.prems by (simp add: register_def)
  then show ?case using Cons.IH by simp
qed

lemma fold_register_table: "fold register ss [] = dependency_table ss"
proof -
  let ?D = "fold register ss []"
  have k: "map fst ?D = first_references ss" using fold_register_keys [of ss "[]"] by simp
  have n: "map snd ?D = map binding_name [0..<length ?D]" by (rule fold_register_names) simp
  have l: "length ?D = length (first_references ss)" using k by (metis length_map)
  have "?D = zip (map fst ?D) (map snd ?D)" by (simp add: zip_map_fst_snd)
  then show ?thesis unfolding dependency_table_def using k n l by simp
qed

lemma dependency_table_keys: "map fst (dependency_table ss) = first_references ss"
  by (simp add: dependency_table_def)

lemma synthesize_layout:
  "synthesize cc ident exports =
     concat (map import_statement (rev (dependency_table (dependency_specifiers exports))))
       @ primary_import ident
       @ export_statement (synthesized_properties cc exports)
       @ source_map_marker"
  by (simp add: synthesize_def export_loop_eq fold_register_table primary_import_def
        export_statement_def synthesized_properties_def source_map_marker_def)

subsection \<open>The import table: one entry for each specifier, bound to its own name\<close>

lemma count_first_references:
  "s \<in> set ss \<Longrightarrow> length (filter (\<lambda>x. x = s) (first_references ss)) = 1"
proof -
  assume "s \<in> set ss"
  then have "s \<in> set (first_references ss)" by (simp add: first_references_set)
  moreover have "distinct (first_references ss)" by (rule first_references_distinct)
  ultimately have "length (filter (\<lambda>x. x = s) (first_references ss))
      = card ({x. x = s} \<inter> set (first_references ss))"
    and "{x. x = s} \<inter> set (first_references ss) = {s}"
    by (auto simp: distinct_length_filter)
  then show ?thesis by simp
qed

lemma dependency_table_length:
  "length (dependency_table ss) = length (first_references ss)"
  by (simp add: dependency_table_def)

lemma dependency_table_count:
  "s \<in> set ss \<Longrightarrow> length (filter (\<lambda>d. fst d = s) (dependency_table ss)) = 1"
proof -
  assume s: "s \<in> set ss"
  have "length (filter (\<lambda>d. fst d = s) (dependency_table ss))
          = length (filter (\<lambda>x. x = s) (map fst (dependency_table ss)))"
    by (simp add: filter_map comp_def)
  then show ?thesis using s by (simp add: dependency_table_keys count_first_references)
qed

lemma dependency_table_binding:
  "s \<in> set ss \<Longrightarrow>
     \<exists>i < length (dependency_table ss). dependency_table ss ! i = (s, binding_name i)
        \<and> map_of (dependency_table ss) s = Some (binding_name i)"
proof -
  assume "s \<in> set ss"
  then have "s \<in> set (first_references ss)" by (simp add: first_references_set)
  then obtain i where i: "i < length (first_references ss)" "first_references ss ! i = s"
    by (auto simp: in_set_conv_nth)
  have d: "distinct (map fst (dependency_table ss))"
    by (simp add: dependency_table_keys first_references_distinct)
  have n: "dependency_table ss ! i = (s, binding_name i)"
    using i by (simp add: dependency_table_def)
  have "(s, binding_name i) \<in> set (dependency_table ss)"
    using n i by (metis dependency_table_length nth_mem)
  then have "map_of (dependency_table ss) s = Some (binding_name i)"
    using d by simp
  then show ?thesis using n i by (auto simp: dependency_table_length)
qed

lemma in_specifiers_of:
  "Dependency s n \<in> set cs \<Longrightarrow> s \<in> set (specifiers_of cs)"
  by (induction cs rule: specifiers_of.induct) auto

lemma in_dependency_specifiers:
  "entry \<in> set exports \<Longrightarrow> Dependency s n \<in> set (compositions_of (snd entry)) \<Longrightarrow>
     s \<in> set (dependency_specifiers exports)"
  by (auto simp: dependency_specifiers_def dest: in_specifiers_of)

lemma hex_digit_inj: "a < 16 \<Longrightarrow> b < 16 \<Longrightarrow> hex_digit a = hex_digit b \<Longrightarrow> a = b"
proof -
  assume a: "a < 16" and b: "b < 16" and h: "hex_digit a = hex_digit b"
  have d: "distinct ''0123456789abcdef''" by simp
  have l: "length ''0123456789abcdef'' = 16" by simp
  from h have "''0123456789abcdef'' ! a = ''0123456789abcdef'' ! b"
    using a b by (simp add: hex_digit_def)
  then show "a = b" using d l a b nth_eq_iff_index_eq by metis
qed

lemma decimal_not_Nil: "decimal n \<noteq> []"
  by (subst decimal.simps) simp

lemma decimal_inj: "decimal m = decimal n \<Longrightarrow> m = n"
proof (induction m arbitrary: n rule: decimal.induct)
  case (1 m)
  show ?case
  proof (cases "m < 10")
    case m: True
    show ?thesis
    proof (cases "n < 10")
      case True
      then have "hex_digit m = hex_digit n"
        using "1.prems" m by (simp add: decimal.simps [of m] decimal.simps [of n])
      then show ?thesis using m True hex_digit_inj [of m n] by simp
    next
      case False
      then have "[hex_digit m] = decimal (n div 10) @ [hex_digit (n mod 10)]"
        using "1.prems" m by (simp add: decimal.simps [of m] decimal.simps [of n])
      then show ?thesis using decimal_not_Nil [of "n div 10"] by simp
    qed
  next
    case m: False
    show ?thesis
    proof (cases "n < 10")
      case True
      then have "decimal (m div 10) @ [hex_digit (m mod 10)] = [hex_digit n]"
        using "1.prems" m by (simp add: decimal.simps [of m] decimal.simps [of n])
      then show ?thesis using decimal_not_Nil [of "m div 10"] by simp
    next
      case False
      then have e: "decimal (m div 10) @ [hex_digit (m mod 10)]
                  = decimal (n div 10) @ [hex_digit (n mod 10)]"
        using "1.prems" m by (simp add: decimal.simps [of m] decimal.simps [of n])
      then have "decimal (m div 10) = decimal (n div 10)" by simp
      then have q: "m div 10 = n div 10" using "1.IH" m by blast
      from e have "hex_digit (m mod 10) = hex_digit (n mod 10)" by simp
      then have r: "m mod 10 = n mod 10" using hex_digit_inj [of "m mod 10" "n mod 10"] by simp
      show ?thesis using q r by (metis div_mult_mod_eq)
    qed
  qed
qed

lemma binding_name_inj: "inj binding_name"
  by (rule injI) (simp add: binding_name_def decimal_inj)

lemma dependency_table_bindings_distinct: "distinct (map snd (dependency_table ss))"
  by (simp add: dependency_table_def distinct_map binding_name_inj inj_on_def injD [OF binding_name_inj])

subsection \<open>Evaluation of the exported object literal\<close>

lemma fold_define_properties:
  "fold (\<lambda>p obj. if fst p = k0 then obj else obj(fst p \<mapsto> snd p)) props m
     = m ++ map_of (rev (filter (\<lambda>p. fst p \<noteq> k0) props))"
proof (induction props arbitrary: m)
  case Nil
  then show ?case by simp
next
  case (Cons p props)
  obtain k v where p: "p = (k, v)" by (cases p)
  show ?case
  proof (cases "k = k0")
    case True
    then show ?thesis using Cons [of m] p by simp
  next
    case False
    have ih: "fold (\<lambda>p obj. if fst p = k0 then obj else obj(fst p \<mapsto> snd p)) props (m(k \<mapsto> v))
        = m(k \<mapsto> v) ++ map_of (rev (filter (\<lambda>p. fst p \<noteq> k0) props))"
      by (rule Cons)
    show ?thesis unfolding p using False by (simp add: ih)
  qed
qed

lemma map_of_rev_last:
  "\<forall>p \<in> set post. fst p \<noteq> k \<Longrightarrow> map_of (rev (pre @ [(k, v)] @ post)) k = Some v"
proof -
  assume "\<forall>p \<in> set post. fst p \<noteq> k"
  then have "map_of (rev post) k = None" by (auto simp: map_of_eq_None_iff)
  then show ?thesis by (simp add: map_add_def)
qed

lemma eval_object_literal_last:
  assumes "\<forall>p \<in> set props. fst p \<noteq> ''__proto__''"
    and "props = pre @ [(k, v)] @ post"
    and "\<forall>p \<in> set post. fst p \<noteq> k"
  shows "\<exists>obj. eval_object_literal props = Inr obj \<and> obj k = Some v"
proof -
  have f: "filter (\<lambda>p. fst p = ''__proto__'') props = []"
    using assms(1) by (auto simp: filter_empty_conv)
  have g: "filter (\<lambda>p. fst p \<noteq> ''__proto__'') props = props"
    using assms(1) by (auto simp: filter_id_conv)
  have "eval_object_literal props = Inr (Map.empty ++ map_of (rev props))"
    unfolding eval_object_literal_def fold_define_properties by (simp only: f g) simp
  moreover have "(Map.empty ++ map_of (rev props)) k = Some v"
    using map_of_rev_last [OF assms(3), of pre v] assms(2) by simp
  ultimately show ?thesis
    by (intro exI [of _ "Map.empty ++ map_of (rev props)"] conjI)
qed

subsection \<open>Where the literal of a fragment ends\<close>

text \<open>
  \<open>escape\<close> writes every character on its own. After an escaped name, a single-quoted literal
  ends at the closing quote that follows the name when the name has no single quote, and at
  the first single quote of the name otherwise: the double quote, the backslash and the line
  terminators are escaped, the single quote is not.
\<close>

lemma escape_concat: "escape s = concat (map QuoteJSONChar s)"
  by (simp add: escape_def slice_1_m1_def JSON_stringify_def butlast_append)

lemma literal_end_plain:
  "c \<noteq> squote \<Longrightarrow> c \<noteq> backslash \<Longrightarrow> c \<noteq> newline \<Longrightarrow> c \<noteq> CHR 0x0D \<Longrightarrow> rest \<noteq> [] \<Longrightarrow>
     literal_end (c # rest) = map_option Suc (literal_end rest)"
  by (cases rest) simp_all

lemma literal_end_backslash:
  "literal_end (backslash # x # rest) = map_option (\<lambda>i. i + 2) (literal_end rest)"
  by simp

lemma hex_digit_plain:
  "hex_digit d \<noteq> squote \<and> hex_digit d \<noteq> backslash \<and> hex_digit d \<noteq> newline
     \<and> hex_digit d \<noteq> CHR 0x0D"
proof -
  have "d mod 16 < length ''0123456789abcdef''" by simp
  then have "hex_digit d \<in> set ''0123456789abcdef''"
    unfolding hex_digit_def by (rule nth_mem)
  then show ?thesis by auto
qed

lemma literal_end_unicode_escape:
  "rest \<noteq> [] \<Longrightarrow>
     literal_end (unicode_escape c @ rest) = map_option (\<lambda>i. i + 6) (literal_end rest)"
proof -
  assume "rest \<noteq> []"
  then have "literal_end (unicode_escape c @ rest)
      = map_option (\<lambda>x. Suc (Suc (Suc (Suc (Suc (Suc x)))))) (literal_end rest)"
    by (simp add: unicode_escape_def Let_def literal_end_plain hex_digit_plain
        option.map_comp comp_def del: literal_end.simps add: literal_end_backslash)
  moreover have "(\<lambda>x. Suc (Suc (Suc (Suc (Suc (Suc x)))))) = (\<lambda>i. i + 6)"
    by (rule ext) simp
  ultimately show ?thesis by simp
qed

lemma literal_end_QuoteJSONChar:
  assumes "c \<noteq> squote" and "rest \<noteq> []"
  shows "literal_end (QuoteJSONChar c @ rest)
           = map_option (\<lambda>i. i + length (QuoteJSONChar c)) (literal_end rest)"
proof (cases "QuoteJSONChar c = [c]")
  case True
  then have "c \<noteq> backslash \<and> c \<noteq> newline \<and> c \<noteq> CHR 0x0D"
    by (auto simp: QuoteJSONChar_def unicode_escape_def Let_def split: if_splits)
  then show ?thesis using True assms by (simp add: literal_end_plain del: literal_end.simps)
next
  case False
  then consider x where "QuoteJSONChar c = [backslash, x]" | "QuoteJSONChar c = unicode_escape c"
    by (auto simp: QuoteJSONChar_def split: if_splits)
  then show ?thesis
  proof cases
    case 1
    then show ?thesis by simp
  next
    case 2
    have "length (unicode_escape c) = 6" by (simp add: unicode_escape_def Let_def)
    then show ?thesis using 2 assms by (simp add: literal_end_unicode_escape)
  qed
qed

lemma literal_end_escape:
  "squote \<notin> set s \<Longrightarrow> literal_end (escape s @ squote # rest) = Some (length (escape s))"
proof (induction s)
  case Nil
  then show ?case by (cases rest) (simp_all add: escape_concat)
next
  case (Cons c s)
  then have ih: "literal_end (escape s @ squote # rest) = Some (length (escape s))" by simp
  have "literal_end (QuoteJSONChar c @ (escape s @ squote # rest))
          = map_option (\<lambda>i. i + length (QuoteJSONChar c)) (literal_end (escape s @ squote # rest))"
    by (rule literal_end_QuoteJSONChar) (use Cons.prems in auto)
  then show ?case using ih by (simp add: escape_concat)
qed

lemma escape_append: "escape (xs @ ys) = escape xs @ escape ys"
  by (simp add: escape_concat)

lemma escape_squote: "escape (squote # s) = squote # escape s"
  by (simp add: escape_concat QuoteJSONChar_def)

lemma literal_end_escape_first_quote:
  "literal_end (escape s @ squote # rest)
     = Some (length (escape (takeWhile (\<lambda>c. c \<noteq> squote) s)))"
proof (cases "squote \<in> set s")
  case False
  then have "takeWhile (\<lambda>c. c \<noteq> squote) s = s" by (auto simp: takeWhile_eq_all_conv)
  then show ?thesis by (simp only: literal_end_escape [OF False])
next
  case True
  let ?pre = "takeWhile (\<lambda>c. c \<noteq> squote) s"
  let ?post = "dropWhile (\<lambda>c. c \<noteq> squote) s"
  have "?post \<noteq> []" using True by (auto simp: dropWhile_eq_Nil_conv)
  moreover have "\<not> (hd ?post \<noteq> squote)" using calculation by (rule hd_dropWhile)
  ultimately obtain post where post: "?post = squote # post" by (cases ?post) auto
  have pre: "squote \<notin> set ?pre" by (auto dest: set_takeWhileD)
  have "s = ?pre @ squote # post" using post takeWhile_dropWhile_id [of "\<lambda>c. c \<noteq> squote" s]
    by simp
  then have "escape s @ squote # rest = escape ?pre @ squote # (escape post @ squote # rest)"
    by (metis append_Cons append_assoc escape_append escape_squote)
  then show ?thesis using literal_end_escape [OF pre] by simp
qed

subsection \<open>What the reader sees of a module\<close>

text \<open>
  The module of the example table, whose names hold no quote: three imports, and for each
  class a sum in which string literals and lookups in the imported bindings alternate.
\<close>

lemma read_module_example:
  "read_module (synthesize (\<lambda>s. s) ''css-modules://H.css'' example_exports)
     = Inr (Module
              [(Some ''dependency_1'', ''./c.css''), (Some ''dependency_0'', ''./b.css''),
               (None, ''css-modules://H.css'')]
              [(''a'', [Str ''h_a '', Index ''dependency_0'' ''x'', Str '' h_l'']),
               (''b'', [Str ''h_b '', Index ''dependency_1'' ''y'', Str '' '',
                        Index ''dependency_0'' ''z'', Str []])])"
  by code_simp

section \<open>The claims\<close>

subsection \<open>C1: the order of the statements\<close>

text \<open>
  C1, as the code has it. The synthesized module is, in this order: the dependency imports
  in reverse first-reference order (each one is put in front of the text built so far), the
  primary stylesheet import, the export statement, the trailing source-map marker.
\<close>

theorem C1_statement_order:
  "synthesize cc ident exports =
     concat (map import_statement (rev (dependency_table (dependency_specifiers exports))))
       @ primary_import ident
       @ export_statement (synthesized_properties cc exports)
       @ source_map_marker"
  by (rule synthesize_layout)

text \<open>
  C1 at the example table: \<open>./b.css\<close> is referenced first and \<open>./c.css\<close> second; the text
  imports \<open>./c.css\<close>, then \<open>./b.css\<close>, then the stylesheet.
\<close>

theorem C1_statement_order_witness:
  "dependency_specifiers example_exports \<noteq> []
   \<and> synthesize (\<lambda>s. s) ''css-modules://H.css'' example_exports =
       ''import dependency_1 from '' @ [dquote] @ ''./c.css'' @ [dquote, newline]
       @ ''import dependency_0 from '' @ [dquote] @ ''./b.css'' @ [dquote, newline]
       @ ''import '' @ [dquote] @ ''css-modules://H.css'' @ [dquote, newline]
       @ export_statement (synthesized_properties (\<lambda>s. s) example_exports)
       @ source_map_marker"
proof -
  have "dependency_specifiers example_exports \<noteq> []" by code_simp
  moreover have
    "concat (map import_statement (rev (dependency_table (dependency_specifiers example_exports))))
       @ primary_import ''css-modules://H.css''
     = ''import dependency_1 from '' @ [dquote] @ ''./c.css'' @ [dquote, newline]
       @ ''import dependency_0 from '' @ [dquote] @ ''./b.css'' @ [dquote, newline]
       @ ''import '' @ [dquote] @ ''css-modules://H.css'' @ [dquote, newline]"
    by code_simp
  ultimately show ?thesis
    using C1_statement_order [of "\<lambda>s. s" "''css-modules://H.css''" example_exports]
    by simp
qed

text \<open>
  C1 as stated fails at the example table: the text is not the primary import, then the
  dependency imports in first-reference order, then the export statement and the marker; it
  does not even begin with the primary import.
\<close>

theorem C1_primary_first_counterexample:
  "synthesize (\<lambda>s. s) ''css-modules://H.css'' example_exports
     \<noteq> primary_import ''css-modules://H.css''
         @ concat (map import_statement (dependency_table (dependency_specifiers example_exports)))
         @ export_statement (synthesized_properties (\<lambda>s. s) example_exports)
         @ source_map_marker
   \<and> \<not> prefix (primary_import ''css-modules://H.css'')
         (synthesize (\<lambda>s. s) ''css-modules://H.css'' example_exports)
   \<and> prefix (''import dependency_1 from '' @ [dquote] @ ''./c.css'' @ [dquote, newline]
              @ ''import dependency_0 from '' @ [dquote] @ ''./b.css'' @ [dquote, newline]
              @ ''import '' @ [dquote] @ ''css-modules://H.css'' @ [dquote, newline]
              @ ''export default {'')
         (synthesize (\<lambda>s. s) ''css-modules://H.css'' example_exports)"
  by code_simp

subsection \<open>C2: escaping of the literal fragments\<close>

text \<open>
  C2 fails for a single quote. The fragments are escaped as for a double-quoted literal and
  placed between single quotes: for the compiled name \<open>x'y\<close> the expression is \<open>'x'y'\<close>, and
  the literal that opens it ends after its first character, two characters before the end of
  the escaped name.
\<close>

theorem C2_single_quote_ends_literal:
  "fst (compiledCssClasses \<lparr>name = [CHR ''x'', squote, CHR ''y''], composes = None\<rparr>
          \<lparr>contents = [], dependencies = []\<rparr>)
     = [squote, CHR ''x'', squote, CHR ''y'', squote]
   \<and> literal_end (tl (fst (compiledCssClasses
          \<lparr>name = [CHR ''x'', squote, CHR ''y''], composes = None\<rparr>
          \<lparr>contents = [], dependencies = []\<rparr>))) = Some 1
   \<and> length (escape [CHR ''x'', squote, CHR ''y'']) = 3"
  by code_simp

subsection \<open>C3: one hoisted import for each specifier, and lookups at run time\<close>

text \<open>
  C3 fails where a name holds a single quote, by the escaping that fails C2. For the class
  \<open>a' +\<close> of \<open>lookup_exports\<close>, which composes \<open>n\<close> from \<open>./b.css\<close>, the loop writes
  \<open>'h_a' + ' + dependency_0["n"] + ' +''\<close>. This is a sum of three string literals, and the
  text of the lookup is the content of the second: the module imports \<open>./b.css\<close> as
  \<open>dependency_0\<close> and the value of the class never reads it.
\<close>

theorem C3_lookup_inside_literal:
  "fst (compiledCssClasses
          \<lparr>name = ''h_a'' @ [squote] @ '' +'',
           composes = Some [Dependency ''./b.css'' ''n'', Global (''+'' @ [squote])]\<rparr>
          \<lparr>contents = [], dependencies = []\<rparr>)
     = [squote] @ ''h_a'' @ [squote] @ '' + '' @ [squote] @ '' + dependency_0['' @ [dquote]
         @ ''n'' @ [dquote] @ ''] + '' @ [squote] @ '' +'' @ [squote, squote]
   \<and> read_module (synthesize (\<lambda>s. s) ''css-modules://H.css'' lookup_exports)
     = Inr (Module
              [(Some ''dependency_0'', ''./b.css''), (None, ''css-modules://H.css'')]
              [(''a'' @ [squote] @ '' +'',
                [Str ''h_a'',
                 Str ('' + dependency_0['' @ [dquote] @ ''n'' @ [dquote] @ ''] + ''),
                 Str []])])
   \<and> constant_value
         [Str ''h_a'', Str ('' + dependency_0['' @ [dquote] @ ''n'' @ [dquote] @ ''] + ''),
          Str []]
     = Some (''h_a + dependency_0['' @ [dquote] @ ''n'' @ [dquote] @ ''] + '')"
  by code_simp

subsection \<open>C4: the cache round trip\<close>

text \<open>
  C4. When the transform of a path that is not excluded succeeds with an export table, the
  identity of the path resolves into the namespace \<open>css-modules\<close>, the cache holds under it
  the compiled text with the source-map comment appended and the directory of the source
  file, and the load hook of the namespace returns exactly these.
\<close>

theorem C4_cache_round_trip:
  assumes "\<not> (case excludeFilter env of Some test \<Rightarrow> test path | None \<Rightarrow> False)"
    and "lightningcss_bundle env path = Inr rslt"
    and "rslt_exports rslt = Some exports"
  shows "onResolve (virtual_id env path)
           = Some \<lparr>res_namespace = ''css-modules'', res_path = virtual_id env path\<rparr>
         \<and> transpiledCssModulesMap (snd (onLoad_module env path st)) (virtual_id env path)
           = Some \<lparr>code = toString_utf8 env (rslt_code rslt)
                      @ ''/*# sourceMappingURL=data:application/json;base64,''
                      @ toString_base64 env (rslt_map rslt) @ '' */'',
                    resolveDir = dirname env path\<rparr>
         \<and> onLoad_css_modules env (virtual_id env path) (snd (onLoad_module env path st))
           = Inr \<lparr>css_contents = toString_utf8 env (rslt_code rslt)
                      @ ''/*# sourceMappingURL=data:application/json;base64,''
                      @ toString_base64 env (rslt_map rslt) @ '' */'',
                   css_loader = (case loader_css env of Some l \<Rightarrow> l | None \<Rightarrow> ''css''),
                   css_resolveDir = dirname env path\<rparr>"
  using assms
  by (simp add: onLoad_module_def onLoad_css_modules_def onResolve_def virtual_id_def
        finalCode_def Let_def)

text \<open>C4 for the file \<open>/src/a.module.css\<close> of the example environment.\<close>

theorem C4_cache_round_trip_witness:
  "lightningcss_bundle example_env ''/src/a.module.css''
     = Inr \<lparr>rslt_code = [0x61], rslt_map = [0x7B, 0x7D],
            rslt_exports = Some [(''a'', \<lparr>name = ''h_a'', composes = Some []\<rparr>)]\<rparr>
   \<and> onLoad_css_modules example_env ''css-modules://H/src/a.module.css.css''
         (snd (onLoad_module example_env ''/src/a.module.css'' example_state))
       = Inr \<lparr>css_contents = ''a/*# sourceMappingURL=data:application/json;base64,e30= */'',
              css_loader = ''css'', css_resolveDir = ''/src''\<rparr>"
proof -
  have x: "\<not> (case excludeFilter example_env of Some test \<Rightarrow> test ''/src/a.module.css''
                | None \<Rightarrow> False)"
    by (simp add: example_env_def)
  have b: "lightningcss_bundle example_env ''/src/a.module.css''
     = Inr \<lparr>rslt_code = [0x61], rslt_map = [0x7B, 0x7D],
            rslt_exports = Some [(''a'', \<lparr>name = ''h_a'', composes = Some []\<rparr>)]\<rparr>"
    by (simp add: example_env_def)
  have i: "virtual_id example_env ''/src/a.module.css'' = ''css-modules://H/src/a.module.css.css''"
    by (simp add: virtual_id_def example_env_def)
  show ?thesis
    using C4_cache_round_trip [OF x b, of _ example_state] b i
    by (simp add: example_env_def)
qed

subsection \<open>C5: a failed transform\<close>

text \<open>
  C5. When \<open>bundle\<close> throws for a path that is not excluded, the hook prints the message with
  the error, throws the same error and returns nothing, and the cache is as it was.
\<close>

theorem C5_transform_failure:
  assumes "\<not> (case excludeFilter env of Some test \<Rightarrow> test path | None \<Rightarrow> False)"
    and "lightningcss_bundle env path = Inl err"
  shows "onLoad_module env path st =
           (Inl (Thrown err),
            st\<lparr>console := console st @ [(''lightning css bundling failed:'', err)]\<rparr>)
         \<and> transpiledCssModulesMap (snd (onLoad_module env path st))
             = transpiledCssModulesMap st"
  using assms by (simp add: onLoad_module_def)

text \<open>C5 for a path the example environment fails on.\<close>

theorem C5_transform_failure_witness:
  "lightningcss_bundle example_env ''/src/broken.module.css'' = Inl ''SyntaxError''
   \<and> onLoad_module example_env ''/src/broken.module.css'' example_state =
       (Inl (Thrown ''SyntaxError''),
        \<lparr>transpiledCssModulesMap = Map.empty,
         console = [(''lightning css bundling failed:'', ''SyntaxError'')]\<rparr>)"
proof -
  have x: "\<not> (case excludeFilter example_env of Some test \<Rightarrow> test ''/src/broken.module.css''
                | None \<Rightarrow> False)"
    by (simp add: example_env_def)
  have b: "lightningcss_bundle example_env ''/src/broken.module.css'' = Inl ''SyntaxError''"
    by (simp add: example_env_def)
  show ?thesis
    using C5_transform_failure [OF x b, of example_state] b
    by (simp add: example_state_def)
qed

subsection \<open>C6: an identity that was never registered\<close>

text \<open>
  C6. For an identity that is not a key of the cache, the load hook of the namespace throws
  and returns no result.
\<close>

theorem C6_unregistered_identity_throws:
  "transpiledCssModulesMap st ident = None \<Longrightarrow>
     onLoad_css_modules env ident st = Inl TypeError
     \<and> (\<forall>r. onLoad_css_modules env ident st \<noteq> Inr r)"
  by (simp add: onLoad_css_modules_def)

text \<open>C6 for the fresh state, whose cache is empty.\<close>

theorem C6_unregistered_identity_throws_witness:
  "transpiledCssModulesMap example_state ''css-modules://nowhere.css'' = None
   \<and> onLoad_css_modules example_env ''css-modules://nowhere.css'' example_state
       = Inl TypeError"
proof -
  have n: "transpiledCssModulesMap example_state ''css-modules://nowhere.css'' = None"
    by (simp add: example_state_def)
  show ?thesis
    using C6_unregistered_identity_throws [OF n, of example_env] n by simp
qed

subsection \<open>C7: two readable names with the same key\<close>

text \<open>
  C7 fails where a compiled name holds a single quote, by the escaping that fails C2. The
  classes \<open>x-y'z\<close> and \<open>xY'z\<close> of \<open>colliding_exports\<close> have the same key, and their module is
  no program: a string literal in it is not terminated. The classes of
  \<open>overtaking_exports\<close> have the same key, and the text written for the later one,
  \<open>'h_2',myButton:'h_1'\<close>, is a value \<open>h_2\<close> and one more property with the key: the object
  holds under the key the compiled name of the earlier class.
\<close>

theorem C7_quote_in_colliding_names:
  "example_camelCase (''x-y'' @ [squote] @ ''z'') = example_camelCase (''xY'' @ [squote] @ ''z'')
   \<and> read_module (synthesize example_camelCase ''css-modules://H.css'' colliding_exports)
     = Inl UnterminatedStringLiteral
   \<and> example_camelCase ''my-button'' = example_camelCase ''myButton''
   \<and> read_module (synthesize example_camelCase ''css-modules://H.css'' overtaking_exports)
     = Inr (Module [(None, ''css-modules://H.css'')]
              [(''myButton'', [Str ''h_1'']), (''myButton'', [Str ''h_2'']),
               (''myButton'', [Str ''h_1''])])
   \<and> property_value ''myButton''
         [(''myButton'', [Str ''h_1'']), (''myButton'', [Str ''h_2'']),
          (''myButton'', [Str ''h_1''])]
     = Inr (Some [Str ''h_1''])"
  by code_simp

subsection \<open>C8: a class that composes a local and a global name\<close>

text \<open>
  C8 fails where a name holds a single quote, by the escaping that fails C2. For the class
  \<open>a\<close> of \<open>local_global_exports\<close>, with the compiled name \<open>h_a\<close>, the local \<open>h_'+'\<close> and the
  global \<open>glb\<close>, the loop writes \<open>'h_a h_'+' glb'\<close>: the sum of two string literals, whose
  value \<open>h_a h_ glb\<close> is not the three names joined by spaces.
\<close>

theorem C8_quote_splits_literal:
  "fst (compiledCssClasses
          \<lparr>name = ''h_a'',
           composes = Some [Local (''h_'' @ [squote] @ ''+'' @ [squote]), Global ''glb'']\<rparr>
          \<lparr>contents = [], dependencies = []\<rparr>)
     = [squote] @ ''h_a h_'' @ [squote] @ ''+'' @ [squote] @ '' glb'' @ [squote]
   \<and> read_module (synthesize (\<lambda>s. s) ''css-modules://H.css'' local_global_exports)
     = Inr (Module [(None, ''css-modules://H.css'')] [(''a'', [Str ''h_a h_'', Str '' glb''])])
   \<and> constant_value [Str ''h_a h_'', Str '' glb''] = Some ''h_a h_ glb''
   \<and> ''h_a h_ glb'' \<noteq> ''h_a h_'' @ [squote] @ ''+'' @ [squote] @ '' glb''"
  by code_simp

subsection \<open>C9: the identity\<close>

text \<open>
  C9. Take two computations of the identity for one path: two calls of the hook that reach
  line 75, in any two states and in any two environments that have the digest in common
  (the verdict of the filter, the result of the transform and all else may differ). Both
  register the stylesheet under the same key and synthesize the module that imports it, and
  this identity is the scheme prefix, the digest of the path and the suffix \<open>.css\<close>.
\<close>

theorem C9_identity_deterministic:
  assumes "sha256_base64url env1 = sha256_base64url env2"
    and "\<not> (case excludeFilter env1 of Some test \<Rightarrow> test path | None \<Rightarrow> False)"
    and "lightningcss_bundle env1 path = Inr rslt1"
    and "rslt_exports rslt1 = Some exports1"
    and "\<not> (case excludeFilter env2 of Some test \<Rightarrow> test path | None \<Rightarrow> False)"
    and "lightningcss_bundle env2 path = Inr rslt2"
    and "rslt_exports rslt2 = Some exports2"
  shows "onLoad_module env1 path st1 =
           (Inr (Some \<lparr>js_contents =
                          synthesize (camelCase env1)
                            (''css-modules://'' @ sha256_base64url env1 path @ ''.css'') exports1,
                        js_loader = ''js''\<rparr>),
            st1\<lparr>transpiledCssModulesMap :=
                  (transpiledCssModulesMap st1)
                    (''css-modules://'' @ sha256_base64url env1 path @ ''.css'' \<mapsto>
                       \<lparr>code = finalCode env1 rslt1, resolveDir = dirname env1 path\<rparr>)\<rparr>)
         \<and> onLoad_module env2 path st2 =
           (Inr (Some \<lparr>js_contents =
                          synthesize (camelCase env2)
                            (''css-modules://'' @ sha256_base64url env1 path @ ''.css'') exports2,
                        js_loader = ''js''\<rparr>),
            st2\<lparr>transpiledCssModulesMap :=
                  (transpiledCssModulesMap st2)
                    (''css-modules://'' @ sha256_base64url env1 path @ ''.css'' \<mapsto>
                       \<lparr>code = finalCode env2 rslt2, resolveDir = dirname env2 path\<rparr>)\<rparr>)
         \<and> virtual_id env1 path = ''css-modules://'' @ sha256_base64url env1 path @ ''.css''
         \<and> virtual_id env2 path = virtual_id env1 path"
  using assms by (simp add: onLoad_module_def virtual_id_def Let_def)

text \<open>
  C9 for \<open>/src/a.module.css\<close>: loaded in the example environment into the fresh state, then
  in the other environment into the state the first call left.
\<close>

theorem C9_identity_deterministic_witness:
  "sha256_base64url example_env = sha256_base64url other_env
   \<and> transpiledCssModulesMap
         (snd (onLoad_module example_env ''/src/a.module.css'' example_state))
       = [''css-modules://H/src/a.module.css.css'' \<mapsto>
            \<lparr>code = ''a/*# sourceMappingURL=data:application/json;base64,e30= */'',
             resolveDir = ''/src''\<rparr>]
   \<and> transpiledCssModulesMap
         (snd (onLoad_module other_env ''/src/a.module.css''
                 (snd (onLoad_module example_env ''/src/a.module.css'' example_state))))
       = [''css-modules://H/src/a.module.css.css'' \<mapsto>
            \<lparr>code = ''bb/*# sourceMappingURL=data:application/json;base64, */'',
             resolveDir = ''/other''\<rparr>]
   \<and> fst (onLoad_module other_env ''/src/a.module.css''
            (snd (onLoad_module example_env ''/src/a.module.css'' example_state)))
       = Inr (Some \<lparr>js_contents =
                      synthesize example_camelCase ''css-modules://H/src/a.module.css.css''
                        example_exports,
                    js_loader = ''js''\<rparr>)"
proof -
  let ?p = "''/src/a.module.css''"
  let ?r1 = "\<lparr>rslt_code = [0x61], rslt_map = [0x7B, 0x7D],
              rslt_exports = Some [(''a'', \<lparr>name = ''h_a'', composes = Some []\<rparr>)]\<rparr>"
  let ?r2 = "\<lparr>rslt_code = [0x62, 0x62], rslt_map = [], rslt_exports = Some example_exports\<rparr>"
  have d: "sha256_base64url example_env = sha256_base64url other_env"
    by (simp add: example_env_def other_env_def)
  have x1: "\<not> (case excludeFilter example_env of Some test \<Rightarrow> test ?p | None \<Rightarrow> False)"
    by (simp add: example_env_def)
  have b1: "lightningcss_bundle example_env ?p = Inr ?r1"
    by (simp add: example_env_def)
  have e1: "rslt_exports ?r1 = Some [(''a'', \<lparr>name = ''h_a'', composes = Some []\<rparr>)]"
    by simp
  have x2: "\<not> (case excludeFilter other_env of Some test \<Rightarrow> test ?p | None \<Rightarrow> False)"
    by (simp add: other_env_def)
  have b2: "lightningcss_bundle other_env ?p = Inr ?r2"
    by (simp add: other_env_def)
  have e2: "rslt_exports ?r2 = Some example_exports"
    by simp
  have k: "sha256_base64url example_env ?p = ''H/src/a.module.css''"
    by (simp add: example_env_def)
  have f1: "finalCode example_env ?r1
              = ''a/*# sourceMappingURL=data:application/json;base64,e30= */''"
    by (simp add: finalCode_def example_env_def)
  have f2: "finalCode other_env ?r2
              = ''bb/*# sourceMappingURL=data:application/json;base64, */''"
    by (simp add: finalCode_def other_env_def)
  have o: "dirname example_env ?p = ''/src''" "dirname other_env ?p = ''/other''"
      "camelCase other_env = example_camelCase"
    by (simp_all add: example_env_def other_env_def)
  let ?K = "''css-modules://H/src/a.module.css.css''"
  let ?S1 = "\<lparr>transpiledCssModulesMap =
                [?K \<mapsto> \<lparr>code = ''a/*# sourceMappingURL=data:application/json;base64,e30= */'',
                          resolveDir = ''/src''\<rparr>],
              console = [] :: (string \<times> string) list\<rparr>"
  note both = C9_identity_deterministic [OF d x1 b1 e1 x2 b2 e2]
  have first: "snd (onLoad_module example_env ?p example_state) = ?S1"
    using both [of example_state example_state]
    by (simp add: k f1 o example_state_def)
  have second: "onLoad_module other_env ?p ?S1 =
      (Inr (Some \<lparr>js_contents = synthesize example_camelCase ?K example_exports,
                     js_loader = ''js''\<rparr>),
       \<lparr>transpiledCssModulesMap =
          [?K \<mapsto> \<lparr>code = ''bb/*# sourceMappingURL=data:application/json;base64, */'',
                    resolveDir = ''/other''\<rparr>],
        console = []\<rparr>)"
    using both [of example_state ?S1]
    by (simp add: k f2 o)
  have "transpiledCssModulesMap
         (snd (onLoad_module example_env ''/src/a.module.css'' example_state))
       = [''css-modules://H/src/a.module.css.css'' \<mapsto>
            \<lparr>code = ''a/*# sourceMappingURL=data:application/json;base64,e30= */'',
             resolveDir = ''/src''\<rparr>]
   \<and> transpiledCssModulesMap
         (snd (onLoad_module other_env ''/src/a.module.css''
                 (snd (onLoad_module example_env ''/src/a.module.css'' example_state))))
       = [''css-modules://H/src/a.module.css.css'' \<mapsto>
            \<lparr>code = ''bb/*# sourceMappingURL=data:application/json;base64, */'',
             resolveDir = ''/other''\<rparr>]
   \<and> fst (onLoad_module other_env ''/src/a.module.css''
            (snd (onLoad_module example_env ''/src/a.module.css'' example_state)))
       = Inr (Some \<lparr>js_contents =
                      synthesize example_camelCase ''css-modules://H/src/a.module.css.css''
                        example_exports,
                    js_loader = ''js''\<rparr>)"
    by (simp only: first second) simp
  with d show ?thesis by (rule conjI)
qed

subsection \<open>C10: an empty export table\<close>

text \<open>
  C10. When the transform of a path that is not excluded succeeds, an empty export table
  gives the module of the stylesheet import, the empty object and the marker, and the
  stylesheet is cached; the hook returns nothing exactly when there is no export table.
\<close>

theorem C10_empty_export_table:
  assumes "\<not> (case excludeFilter env of Some test \<Rightarrow> test path | None \<Rightarrow> False)"
    and "lightningcss_bundle env path = Inr rslt"
  shows "(rslt_exports rslt = Some [] \<longrightarrow>
            onLoad_module env path st =
              (Inr (Some \<lparr>js_contents =
                             ''import '' @ quote (virtual_id env path) @ [newline]
                               @ ''export default {}'' @ [newline]
                               @ ''//# sourceMappingURL='' @ emptyishSourceMap,
                           js_loader = ''js''\<rparr>),
               st\<lparr>transpiledCssModulesMap :=
                    (transpiledCssModulesMap st)
                      (virtual_id env path \<mapsto>
                         \<lparr>code = finalCode env rslt, resolveDir = dirname env path\<rparr>)\<rparr>))
         \<and> (fst (onLoad_module env path st) = Inr None \<longleftrightarrow> rslt_exports rslt = None)"
  using assms
  by (auto simp: onLoad_module_def Let_def synthesize_def split: option.splits)

text \<open>C10 for the two files of the example environment without classes.\<close>

theorem C10_empty_export_table_witness:
  "fst (onLoad_module example_env ''/src/empty.module.css'' example_state)
     = Inr (Some \<lparr>js_contents =
                    ''import '' @ [dquote] @ ''css-modules://H/src/empty.module.css.css''
                      @ [dquote, newline] @ ''export default {}'' @ [newline]
                      @ ''//# sourceMappingURL='' @ emptyishSourceMap,
                  js_loader = ''js''\<rparr>)
   \<and> transpiledCssModulesMap
         (snd (onLoad_module example_env ''/src/empty.module.css'' example_state))
         ''css-modules://H/src/empty.module.css.css''
       = Some \<lparr>code = ''/*# sourceMappingURL=data:application/json;base64,e30= */'',
               resolveDir = ''/src''\<rparr>
   \<and> fst (onLoad_module example_env ''/src/plain.module.css'' example_state) = Inr None"
proof -
  have x: "\<not> (case excludeFilter example_env of Some test \<Rightarrow> test p | None \<Rightarrow> False)" for p
    by (simp add: example_env_def)
  have b1: "lightningcss_bundle example_env ''/src/empty.module.css''
      = Inr \<lparr>rslt_code = [], rslt_map = [0x7B, 0x7D], rslt_exports = Some []\<rparr>"
    by (simp add: example_env_def)
  have b2: "lightningcss_bundle example_env ''/src/plain.module.css''
      = Inr \<lparr>rslt_code = [], rslt_map = [0x7B, 0x7D], rslt_exports = None\<rparr>"
    by (simp add: example_env_def)
  have i: "virtual_id example_env ''/src/empty.module.css''
      = ''css-modules://H/src/empty.module.css.css''"
    by (simp add: virtual_id_def example_env_def)
  have q: "quote ''css-modules://H/src/empty.module.css.css''
      = [dquote] @ ''css-modules://H/src/empty.module.css.css'' @ [dquote]"
    by code_simp
  have f: "finalCode example_env \<lparr>rslt_code = [], rslt_map = [0x7B, 0x7D], rslt_exports = Some []\<rparr>
      = ''/*# sourceMappingURL=data:application/json;base64,e30= */''"
    by (simp add: finalCode_def example_env_def)
  have d: "dirname example_env ''/src/empty.module.css'' = ''/src''"
    by (simp add: example_env_def)
  show ?thesis
    using C10_empty_export_table [OF x b1, of example_state]
      C10_empty_export_table [OF x b2, of example_state]
    by (simp add: i q f d example_state_def)
qed

end
